theory Spec2Isabelle
  imports Main
begin

section \<open>The avatar upload route \<^verbatim>\<open>pages/api/upload-avatar.js\<close>\<close>

text \<open>
  The route is one module: a module-level statement that creates the upload directory,
  and the exported \<^verbatim>\<open>handler(req, res)\<close>. The handler hands the request to formidable's
  \<^verbatim>\<open>form.parse\<close> and answers from the callback. The embedding takes what the
  environment supplies as inputs: the working directory (\<^verbatim>\<open>process.cwd()\<close>), the clock
  reading (\<^verbatim>\<open>Date.now()\<close>), the outcome of formidable's parse (an error, or the
  \<^verbatim>\<open>files\<close> object), and the file system as it is when the callback runs. It returns
  the HTTP response, the file system afterwards and the lines written to the console.
\<close>

subsection \<open>Strings: number to string, splitting and joining on the separator\<close>

text \<open>
  \<^verbatim>\<open>Date.now() + '-' + name\<close> converts the number to its decimal digits. The clock is a
  non-negative integer of milliseconds, so it is a \<^typ>\<open>nat\<close> here.
\<close>

definition digit_char :: "nat \<Rightarrow> char" where
  "digit_char d = ''0123456789'' ! d"

fun string_of_nat :: "nat \<Rightarrow> string" where
  "string_of_nat n =
     (if n < 10 then [digit_char n]
      else string_of_nat (n div 10) @ [digit_char (n mod 10)])"

declare string_of_nat.simps [simp del]

text \<open>The pieces of a path between its \<^verbatim>\<open>/\<close> separators, empty pieces included.\<close>

fun split_slash :: "string \<Rightarrow> string list" where
  "split_slash [] = [[]]"
| "split_slash (c # cs) =
     (if c = CHR ''/'' then [] # split_slash cs
      else (case split_slash cs of
              [] \<Rightarrow> [[c]]
            | s # ss \<Rightarrow> (c # s) # ss))"

fun join_slash :: "string list \<Rightarrow> string" where
  "join_slash [] = []"
| "join_slash [s] = s"
| "join_slash (s # t # ss) = s @ ''/'' @ join_slash (t # ss)"

subsection \<open>Node's \<^verbatim>\<open>path.join\<close> (POSIX)\<close>

text \<open>
  \<^verbatim>\<open>path.join\<close> glues its non-empty arguments with \<^verbatim>\<open>/\<close> and normalises the result
  lexically: empty and \<^verbatim>\<open>.\<close> segments are dropped, a \<^verbatim>\<open>..\<close> segment removes the segment
  before it (unless that is itself \<^verbatim>\<open>..\<close>), and above the start \<^verbatim>\<open>..\<close> is kept
  only for a relative path. \<open>norm_step\<close> is one turn of the loop of Node's
  \<^verbatim>\<open>normalizeString\<close>, on whole segments.
\<close>

definition norm_step :: "bool \<Rightarrow> string list \<Rightarrow> string \<Rightarrow> string list" where
  "norm_step allowAboveRoot res seg =
     (if seg = [] \<or> seg = ''.'' then res
      else if seg = ''..'' then
        (if res \<noteq> [] \<and> last res \<noteq> ''..'' then butlast res
         else if allowAboveRoot then res @ [''..'']
         else res)
      else res @ [seg])"

definition normalizeString :: "string \<Rightarrow> bool \<Rightarrow> string" where
  "normalizeString p allowAboveRoot =
     join_slash (foldl (norm_step allowAboveRoot) [] (split_slash p))"

definition path_normalize :: "string \<Rightarrow> string" where
  "path_normalize p =
     (if p = [] then ''.''
      else
        let isAbsolute = (hd p = CHR ''/'');
            trailingSeparator = (last p = CHR ''/'');
            q = normalizeString p (\<not> isAbsolute)
        in if q = [] then (if isAbsolute then ''/'' else if trailingSeparator then ''./'' else ''.'')
           else (if isAbsolute then ''/'' else []) @ q @ (if trailingSeparator then ''/'' else []))"

definition path_join :: "string list \<Rightarrow> string" where
  "path_join args =
     (let joined = filter (\<lambda>a. a \<noteq> []) args
      in if joined = [] then ''.'' else path_normalize (join_slash joined))"

subsection \<open>The file system\<close>

text \<open>
  Regular files by path with their bytes, the set of directories, and the directories
  whose entries cannot be changed (a read-only directory). Paths are absolute and
  normalised, as \<^verbatim>\<open>path.join\<close> produces them. \<open>renameSync\<close>, \<open>unlinkSync\<close>,
  \<open>existsSync\<close> and \<open>mkdirSync_recursive\<close> stand for the calls of Node's \<^verbatim>\<open>fs\<close>
  module on regular files: a call either throws (\<open>Inl\<close>) and changes nothing, or returns
  the changed file system. A rename onto an existing file replaces it, as POSIX
  \<^verbatim>\<open>rename\<close> does. The handler never looks at which error was thrown, so the
  properties of a failed call below hold for any error, also for causes of failure that
  are left out here (a move across devices, a full disk).
\<close>

type_synonym path = string
type_synonym bytes = string

record filesystem =
  files :: "path \<rightharpoonup> bytes"
  dirs :: "path set"
  readonly :: "path set"

datatype fs_error = ENOENT | ENOTDIR | EISDIR | EACCES

definition parent_dir :: "path \<Rightarrow> path" where
  "parent_dir p =
     (let d = rev (drop 1 (dropWhile (\<lambda>c. c \<noteq> CHR ''/'') (rev p)))
      in if d = [] then ''/'' else d)"


definition renameSync :: "filesystem \<Rightarrow> path \<Rightarrow> path \<Rightarrow> fs_error + filesystem" where
  "renameSync fs oldPath newPath =
     (case files fs oldPath of
        None \<Rightarrow> Inl ENOENT
      | Some content \<Rightarrow>
          if parent_dir newPath \<notin> dirs fs then
            (if parent_dir newPath \<in> dom (files fs) then Inl ENOTDIR else Inl ENOENT)
          else if newPath \<in> dirs fs then Inl EISDIR
          else if parent_dir oldPath \<in> readonly fs \<or> parent_dir newPath \<in> readonly fs
            then Inl EACCES
          else Inr (fs\<lparr>files := ((files fs)(oldPath := None))(newPath \<mapsto> content)\<rparr>))"

definition unlinkSync :: "filesystem \<Rightarrow> path \<Rightarrow> fs_error + filesystem" where
  "unlinkSync fs p =
     (case files fs p of
        None \<Rightarrow> (if p \<in> dirs fs then Inl EISDIR else Inl ENOENT)
      | Some content \<Rightarrow>
          if parent_dir p \<in> readonly fs then Inl EACCES
          else Inr (fs\<lparr>files := (files fs)(p := None)\<rparr>))"





subsection \<open>Requests, responses and the console\<close>

text \<open>
  A file as formidable reports it: the client-declared name (\<^verbatim>\<open>null\<close> when the part
  carries none) and the path of the temporary file formidable wrote. The \<^verbatim>\<open>avatar\<close>
  entry of \<^verbatim>\<open>files\<close> is absent, one file, or an array of files.
\<close>

record uploaded_file =
  originalFilename :: "string option"
  filepath :: path

datatype file_field = OneFile uploaded_file | FileArray "uploaded_file list"

datatype parse_result =
    ParseError string
  | Parsed "string \<rightharpoonup> file_field"

record request =
  "method" :: string
  parsed :: parse_result

record response =
  status :: nat
  headers :: "(string \<times> string list) list"
  json :: "(string \<times> string) list"

datatype log_line =
    LogParse string
  | LogRename fs_error
  | LogUnlink fs_error

definition respond :: "nat \<Rightarrow> (string \<times> string) list \<Rightarrow> response" where
  "respond code body = \<lparr>status = code, headers = [], json = body\<rparr>"

subsection \<open>The module\<close>

definition uploadDir :: "path \<Rightarrow> path" where
  "uploadDir cwd = path_join [cwd, ''public/uploads/avatars'']"


text \<open>\<^verbatim>\<open>Array.isArray(file) ? file[0] : file\<close>; \<open>None\<close> is \<^verbatim>\<open>undefined\<close>.\<close>

fun anUploadedFile :: "file_field \<Rightarrow> uploaded_file option" where
  "anUploadedFile (OneFile f) = Some f"
| "anUploadedFile (FileArray []) = None"
| "anUploadedFile (FileArray (f # rest)) = Some f"

definition uniqueFilename :: "nat \<Rightarrow> string \<Rightarrow> string" where
  "uniqueFilename now name = string_of_nat now @ ''-'' @ name"

definition newPath :: "path \<Rightarrow> nat \<Rightarrow> string \<Rightarrow> path" where
  "newPath cwd now name = path_join [uploadDir cwd, uniqueFilename now name]"

definition imageUrl :: "nat \<Rightarrow> string \<Rightarrow> string" where
  "imageUrl now name = ''/uploads/avatars/'' @ uniqueFilename now name"

text \<open>Lines 81 to 98: the rename, and the cleanup when it throws.\<close>

definition persist ::
  "path \<Rightarrow> nat \<Rightarrow> filesystem \<Rightarrow> uploaded_file \<Rightarrow> string \<Rightarrow> response \<times> filesystem \<times> log_line list" where
  "persist cwd now fs f name =
     (case renameSync fs (filepath f) (newPath cwd now name) of
        Inr fs' \<Rightarrow> (respond 200 [(''imageUrl'', imageUrl now name)], fs', [])
      | Inl renameError \<Rightarrow>
          (case unlinkSync fs (filepath f) of
             Inr fs' \<Rightarrow>
               (respond 500 [(''error'', ''Error saving uploaded file.'')], fs',
                [LogRename renameError])
           | Inl unlinkError \<Rightarrow>
               (respond 500 [(''error'', ''Error saving uploaded file.'')], fs,
                [LogRename renameError, LogUnlink unlinkError])))"

text \<open>
  The handler. An original filename that is \<^verbatim>\<open>null\<close> or the empty string is falsy, so
  both take the 400 branch of line 76.
\<close>

definition handler ::
  "path \<Rightarrow> nat \<Rightarrow> request \<Rightarrow> filesystem \<Rightarrow> response \<times> filesystem \<times> log_line list" where
  "handler cwd now req fs =
     (if method req = ''POST'' then
        (case parsed req of
           ParseError err \<Rightarrow>
             (respond 500 [(''error'', ''Error parsing form data.'')], fs, [LogParse err])
         | Parsed fileMap \<Rightarrow>
             (case fileMap ''avatar'' of
                None \<Rightarrow> (respond 400 [(''error'', ''No file uploaded.'')], fs, [])
              | Some file \<Rightarrow>
                  (case anUploadedFile file of
                     None \<Rightarrow>
                       (respond 400 [(''error'', ''No file uploaded or filename is missing.'')],
                        fs, [])
                   | Some f \<Rightarrow>
                       (case originalFilename f of
                          None \<Rightarrow>
                            (respond 400
                               [(''error'', ''No file uploaded or filename is missing.'')],
                             fs, [])
                        | Some name \<Rightarrow>
                            if name = [] then
                              (respond 400
                                 [(''error'', ''No file uploaded or filename is missing.'')],
                               fs, [])
                            else persist cwd now fs f name))))
      else
        (\<lparr>status = 405, headers = [(''Allow'', [''POST''])],
          json = [(''error'', ''Method not allowed'')]\<rparr>, fs, []))"

text \<open>A run of the server: the requests answered one after the other, each at its clock reading.\<close>

fun serve :: "path \<Rightarrow> (nat \<times> request) list \<Rightarrow> filesystem \<Rightarrow> response list \<times> filesystem" where
  "serve cwd [] fs = ([], fs)"
| "serve cwd ((now, req) # rest) fs =
     (case handler cwd now req fs of
        (r, fs', lg) \<Rightarrow> (case serve cwd rest fs' of (rs, fs'') \<Rightarrow> (r # rs, fs'')))"

subsection \<open>Notions used to state and prove the properties\<close>

text \<open>
  The file and the name the handler goes on to persist: what is left of a request after
  the checks of lines 54 to 79. \<open>None\<close> when the handler answers before line 81.
\<close>

definition selected :: "request \<Rightarrow> (uploaded_file \<times> string) option" where
  "selected req =
     (if method req = ''POST'' then
        (case parsed req of
           ParseError err \<Rightarrow> None
         | Parsed fileMap \<Rightarrow>
             (case fileMap ''avatar'' of
                None \<Rightarrow> None
              | Some file \<Rightarrow>
                  (case anUploadedFile file of
                     None \<Rightarrow> None
                   | Some f \<Rightarrow>
                       (case originalFilename f of
                          None \<Rightarrow> None
                        | Some name \<Rightarrow> if name = [] then None else Some (f, name)))))
      else None)"

text \<open>The paths a request can change: its temporary file and its destination.\<close>

definition touched :: "path \<Rightarrow> nat \<times> request \<Rightarrow> path set" where
  "touched cwd timed =
     (case selected (snd timed) of
        None \<Rightarrow> {}
      | Some (f, name) \<Rightarrow> {filepath f, newPath cwd (fst timed) name})"

text \<open>A path strictly below a directory.\<close>

definition inside_dir :: "path \<Rightarrow> path \<Rightarrow> bool" where
  "inside_dir root p = (take (Suc (length root)) p = root @ ''/'')"

text \<open>
  A segment that normalisation keeps as it is, and the segments of the working directory
  and of the upload directory once normalised.
\<close>

definition plain :: "string \<Rightarrow> bool" where
  "plain seg = (seg \<noteq> [] \<and> seg \<noteq> ''.'' \<and> seg \<noteq> ''..'' \<and> CHR ''/'' \<notin> set seg)"

definition cwd_segments :: "path \<Rightarrow> string list" where
  "cwd_segments cwd = foldl (norm_step False) [] (split_slash cwd)"

definition upload_segments :: "path \<Rightarrow> string list" where
  "upload_segments cwd = cwd_segments cwd @ [''public'', ''uploads'', ''avatars'']"

text \<open>
  What normalisation keeps of a generated filename whose original filename has no
  \<^verbatim>\<open>..\<close> segment: the first segment, which carries the clock reading, and the later
  segments that are neither empty nor \<^verbatim>\<open>.\<close>.
\<close>

definition kept_segments :: "nat \<Rightarrow> string \<Rightarrow> string list" where
  "kept_segments now name =
     (string_of_nat now @ ''-'' @ hd (split_slash name)) #
     filter (\<lambda>s. s \<noteq> [] \<and> s \<noteq> ''.'') (tl (split_slash name))"



text \<open>
  Lines 55 to 59: the form is told to put uploads in the upload directory, and formidable
  has written every file part to the part's \<^verbatim>\<open>filepath\<close> before it calls back.
  \<open>write_temp\<close> is that write, so that the state before the request can be told from the
  state the callback sees.
\<close>

definition write_temp :: "filesystem \<Rightarrow> path \<Rightarrow> bytes \<Rightarrow> filesystem" where
  "write_temp fs tmp content = fs\<lparr>files := (files fs)(tmp \<mapsto> content)\<rparr>"

subsection \<open>Sample inputs\<close>

text \<open>
  A server started in \<^verbatim>\<open>/app\<close> whose upload directory holds two temporary files written
  by formidable; the same disk with the upload directory read-only; and a POST whose
  \<^verbatim>\<open>avatar\<close> part is one file.
\<close>

definition sample_disk :: filesystem where
  "sample_disk =
     \<lparr>files = [''/app/public/uploads/avatars/tmp1'' \<mapsto> ''first'',
               ''/app/public/uploads/avatars/tmp2'' \<mapsto> ''second''],
      dirs = {''/app'', ''/app/public'', ''/app/public/uploads'',
              ''/app/public/uploads/avatars''},
      readonly = {}\<rparr>"

definition sample_disk_readonly :: filesystem where
  "sample_disk_readonly = sample_disk\<lparr>readonly := {''/app/public/uploads/avatars''}\<rparr>"

definition upload_request :: "string \<Rightarrow> path \<Rightarrow> request" where
  "upload_request name tmp =
     \<lparr>method = ''POST'',
      parsed = Parsed [''avatar'' \<mapsto> OneFile \<lparr>originalFilename = Some name, filepath = tmp\<rparr>]\<rparr>"


text \<open>
  The disk right after the module was loaded, with no file yet; and a disk on which the
  upload directory is missing while an upload waits in the system's temporary directory.
\<close>

definition loaded_disk :: filesystem where
  "loaded_disk =
     \<lparr>files = Map.empty,
      dirs = {''/app'', ''/app/public'', ''/app/public/uploads'',
              ''/app/public/uploads/avatars''},
      readonly = {}\<rparr>"


section \<open>Auxiliary facts\<close>

subsection \<open>Decimal digits, splitting and joining\<close>

lemma string_of_nat_nonempty: "string_of_nat n \<noteq> []"
  by (subst string_of_nat.simps) simp

lemma digit_char_digit: "d < 10 \<Longrightarrow> digit_char d \<in> set ''0123456789''"
  unfolding digit_char_def by (rule nth_mem) simp

lemma string_of_nat_digits: "set (string_of_nat n) \<subseteq> set ''0123456789''"
proof (induction n rule: string_of_nat.induct)
  case (1 n)
  show ?case
  proof (cases "n < 10")
    case True
    then show ?thesis
      using digit_char_digit [of n] by (subst string_of_nat.simps) simp
  next
    case False
    have "n mod 10 < 10" by simp
    then have "digit_char (n mod 10) \<in> set ''0123456789''" by (rule digit_char_digit)
    with False 1 show ?thesis
      by (subst string_of_nat.simps) simp
  qed
qed

lemma digit_char_inj: "a < 10 \<Longrightarrow> b < 10 \<Longrightarrow> digit_char a = digit_char b \<Longrightarrow> a = b"
proof -
  assume a: "a < 10" and b: "b < 10" and e: "digit_char a = digit_char b"
  have d: "distinct ''0123456789''" by simp
  have "a < length ''0123456789''" "b < length ''0123456789''" using a b by simp_all
  with d e show "a = b" unfolding digit_char_def by (simp add: nth_eq_iff_index_eq)
qed

lemma string_of_nat_inj: "string_of_nat m = string_of_nat n \<Longrightarrow> m = n"
proof (induction m arbitrary: n rule: string_of_nat.induct)
  case (1 m)
  show ?case
  proof (cases "m < 10")
    case mlt: True
    show ?thesis
    proof (cases "n < 10")
      case True
      with mlt 1(2) show ?thesis
        by (subst (asm) string_of_nat.simps, subst (asm) (2) string_of_nat.simps)
           (simp add: digit_char_inj)
    next
      case False
      have "string_of_nat m = [digit_char m]" using mlt by (subst string_of_nat.simps) simp
      moreover have "string_of_nat n = string_of_nat (n div 10) @ [digit_char (n mod 10)]"
        using False by (subst string_of_nat.simps) simp
      ultimately show ?thesis using 1(2) string_of_nat_nonempty [of "n div 10"] by simp
    qed
  next
    case mge: False
    have ms: "string_of_nat m = string_of_nat (m div 10) @ [digit_char (m mod 10)]"
      using mge by (subst string_of_nat.simps) simp
    show ?thesis
    proof (cases "n < 10")
      case True
      have "string_of_nat n = [digit_char n]" using True by (subst string_of_nat.simps) simp
      with ms show ?thesis using 1(2) string_of_nat_nonempty [of "m div 10"] by simp
    next
      case False
      have ns: "string_of_nat n = string_of_nat (n div 10) @ [digit_char (n mod 10)]"
        using False by (subst string_of_nat.simps) simp
      from ms ns 1(2) have p: "string_of_nat (m div 10) = string_of_nat (n div 10)"
        and q: "digit_char (m mod 10) = digit_char (n mod 10)" by simp_all
      from 1(1) [OF mge p] have "m div 10 = n div 10" .
      moreover have "m mod 10 = n mod 10" using q by (simp add: digit_char_inj)
      ultimately show ?thesis by (metis div_mult_mod_eq)
    qed
  qed
qed

lemma split_slash_nonempty: "split_slash s \<noteq> []"
  by (cases s) (auto split: list.splits)

lemma split_slash_no_slash: "CHR ''/'' \<notin> set s \<Longrightarrow> split_slash s = [s]"
  by (induction s) auto

lemma split_slash_append:
  "split_slash (a @ CHR ''/'' # b) = split_slash a @ split_slash b"
proof (induction a)
  case Nil
  show ?case by simp
next
  case (Cons c a)
  then show ?case
    using split_slash_nonempty [of a]
    by (cases "split_slash a") auto
qed

lemma split_slash_segments: "seg \<in> set (split_slash s) \<Longrightarrow> CHR ''/'' \<notin> set seg"
proof (induction s arbitrary: seg)
  case Nil
  then show ?case by simp
next
  case (Cons c s)
  then show ?case
    by (cases "split_slash s") (auto split: if_splits)
qed

lemma join_slash_snoc:
  "xs \<noteq> [] \<Longrightarrow> join_slash (xs @ [s]) = join_slash xs @ CHR ''/'' # s"
  by (induction xs rule: join_slash.induct) auto

lemma split_join_slash:
  "xs \<noteq> [] \<Longrightarrow> \<forall>x \<in> set xs. CHR ''/'' \<notin> set x \<Longrightarrow> split_slash (join_slash xs) = xs"
proof (induction xs rule: join_slash.induct)
  case 1
  then show ?case by simp
next
  case (2 s)
  then show ?case by (simp add: split_slash_no_slash)
next
  case (3 s t ss)
  then show ?case by (simp add: split_slash_append split_slash_no_slash)
qed

subsection \<open>Normalisation of the upload directory and of the destination\<close>

lemma norm_step_plain: "plain seg \<Longrightarrow> norm_step a res seg = res @ [seg]"
  by (simp add: norm_step_def plain_def)

lemma foldl_norm_step_plain:
  "\<forall>s \<in> set segs. plain s \<Longrightarrow> foldl (norm_step a) res segs = res @ segs"
  by (induction segs arbitrary: res) (simp_all add: norm_step_plain)

lemma norm_step_False_plain:
  "\<forall>s \<in> set res. plain s \<Longrightarrow> CHR ''/'' \<notin> set seg \<Longrightarrow>
     \<forall>s \<in> set (norm_step False res seg). plain s"
  by (auto simp: norm_step_def plain_def dest: in_set_butlastD)

lemma foldl_norm_step_False_plain:
  "\<forall>s \<in> set res. plain s \<Longrightarrow> \<forall>s \<in> set segs. CHR ''/'' \<notin> set s \<Longrightarrow>
     \<forall>s \<in> set (foldl (norm_step False) res segs). plain s"
proof (induction segs arbitrary: res)
  case Nil
  then show ?case by simp
next
  case (Cons seg segs)
  have "\<forall>s \<in> set (norm_step False res seg). plain s"
    using Cons.prems by (intro norm_step_False_plain) simp_all
  then show ?case using Cons by simp
qed

lemma cwd_segments_plain: "\<forall>s \<in> set (cwd_segments cwd). plain s"
  unfolding cwd_segments_def
  by (rule foldl_norm_step_False_plain) (simp_all add: split_slash_segments)

lemma upload_segments_plain: "\<forall>s \<in> set (upload_segments cwd). plain s"
  using cwd_segments_plain [of cwd] by (auto simp: upload_segments_def plain_def)

lemma uploadDir_absolute:
  assumes "cwd \<noteq> []" "hd cwd = CHR ''/''"
  shows "uploadDir cwd = CHR ''/'' # join_slash (upload_segments cwd)"
proof -
  let ?p = "cwd @ ''/public/uploads/avatars''"
  have sp: "split_slash ?p = split_slash cwd @ [''public'', ''uploads'', ''avatars'']"
    using split_slash_append [of cwd "''public/uploads/avatars''"] by simp
  have "foldl (norm_step False) [] (split_slash ?p) = upload_segments cwd"
    unfolding sp upload_segments_def cwd_segments_def
    by (simp add: norm_step_def)
  then have q: "normalizeString ?p False = join_slash (upload_segments cwd)"
    by (simp add: normalizeString_def)
  have "upload_segments cwd = (cwd_segments cwd @ [''public'', ''uploads'']) @ [''avatars'']"
    by (simp add: upload_segments_def)
  moreover have "join_slash ((cwd_segments cwd @ [''public'', ''uploads'']) @ [''avatars'']) =
      join_slash (cwd_segments cwd @ [''public'', ''uploads'']) @ CHR ''/'' # ''avatars''"
    by (rule join_slash_snoc) simp
  ultimately have "join_slash (upload_segments cwd) =
      join_slash (cwd_segments cwd @ [''public'', ''uploads'']) @ CHR ''/'' # ''avatars''"
    by simp
  then have ne: "join_slash (upload_segments cwd) \<noteq> []"
    by simp
  have j: "path_join [cwd, ''public/uploads/avatars''] = path_normalize ?p"
    using assms by (simp add: path_join_def)
  have h: "hd ?p = CHR ''/''" using assms by simp
  show ?thesis
    unfolding uploadDir_def j
    using h q ne by (simp add: path_normalize_def Let_def)
qed

lemma split_slash_prefix:
  "CHR ''/'' \<notin> set a \<Longrightarrow>
     split_slash (a @ b) = (a @ hd (split_slash b)) # tl (split_slash b)"
proof (induction a)
  case Nil
  then show ?case using split_slash_nonempty [of b] by simp
next
  case (Cons c a)
  then show ?case by auto
qed

lemma foldl_norm_step_no_dotdot:
  "''..'' \<notin> set segs \<Longrightarrow>
     foldl (norm_step al) res segs = res @ filter (\<lambda>s. s \<noteq> [] \<and> s \<noteq> ''.'') segs"
  by (induction segs arbitrary: res) (auto simp: norm_step_def)

lemma join_slash_nonempty: "xs \<noteq> [] \<Longrightarrow> hd xs \<noteq> [] \<Longrightarrow> join_slash xs \<noteq> []"
  by (induction xs rule: join_slash.induct) auto

lemma last_uniqueFilename:
  "last (uniqueFilename now name) = (if name = [] then CHR ''-'' else last name)"
  by (simp add: uniqueFilename_def)

lemma first_segment_plain: "plain (string_of_nat now @ ''-'' @ hd (split_slash name))"
proof -
  have d: "set (string_of_nat now) \<subseteq> set ''0123456789''" by (rule string_of_nat_digits)
  have a: "CHR ''/'' \<notin> set (string_of_nat now)" using d by auto
  have b: "CHR ''.'' \<notin> set (string_of_nat now)" using d by auto
  obtain c cs where cs: "string_of_nat now = c # cs"
    using string_of_nat_nonempty [of now] by (cases "string_of_nat now") auto
  with b have c: "c \<noteq> CHR ''.''" by auto
  have "hd (split_slash name) \<in> set (split_slash name)"
    using split_slash_nonempty [of name] by simp
  then have h: "CHR ''/'' \<notin> set (hd (split_slash name))" by (rule split_slash_segments)
  show ?thesis using a c cs h by (simp add: plain_def)
qed

lemma newPath_no_dotdot:
  assumes "cwd \<noteq> []" "hd cwd = CHR ''/''" "''..'' \<notin> set (tl (split_slash name))"
  shows "newPath cwd now name =
           CHR ''/'' # join_slash (upload_segments cwd @ kept_segments now name) @
           (if last (uniqueFilename now name) = CHR ''/'' then ''/'' else [])"
proof -
  let ?u = "uniqueFilename now name"
  let ?U = "upload_segments cwd"
  let ?p = "uploadDir cwd @ CHR ''/'' # ?u"
  let ?first = "string_of_nat now @ ''-'' @ hd (split_slash name)"
  let ?rest = "tl (split_slash name)"
  have une: "?u \<noteq> []" using string_of_nat_nonempty [of now] by (simp add: uniqueFilename_def)
  have ud: "uploadDir cwd = CHR ''/'' # join_slash ?U"
    using assms(1,2) by (rule uploadDir_absolute)
  have Une: "?U \<noteq> []" by (simp add: upload_segments_def)
  have Upl: "\<forall>s \<in> set ?U. plain s" by (rule upload_segments_plain)
  then have Uns: "\<forall>s \<in> set ?U. CHR ''/'' \<notin> set s" by (simp add: plain_def)
  have "set (string_of_nat now) \<subseteq> set ''0123456789''" by (rule string_of_nat_digits)
  then have "CHR ''/'' \<notin> set (string_of_nat now @ ''-'')" by auto
  from split_slash_prefix [OF this, of name]
  have su: "split_slash ?u = ?first # ?rest" by (simp add: uniqueFilename_def)
  have "split_slash ?p = split_slash (uploadDir cwd) @ split_slash ?u"
    by (rule split_slash_append)
  also have "split_slash (uploadDir cwd) = [] # split_slash (join_slash ?U)"
    unfolding ud using split_slash_append [of "[]" "join_slash ?U"] by simp
  also have "split_slash (join_slash ?U) = ?U" using Une Uns by (rule split_join_slash)
  finally have sp: "split_slash ?p = [] # ?U @ ?first # ?rest" using su by simp
  have "\<forall>s \<in> set (?U @ [?first]). plain s" using Upl first_segment_plain by simp
  then have f1: "foldl (norm_step False) [] (?U @ [?first]) = [] @ (?U @ [?first])"
    by (rule foldl_norm_step_plain)
  from assms(3) have f2: "foldl (norm_step False) (?U @ [?first]) ?rest =
      (?U @ [?first]) @ filter (\<lambda>s. s \<noteq> [] \<and> s \<noteq> ''.'') ?rest"
    by (rule foldl_norm_step_no_dotdot)
  have "foldl (norm_step False) [] (split_slash ?p) =
      foldl (norm_step False) (foldl (norm_step False) [] (?U @ [?first])) ?rest"
    unfolding sp by (simp add: norm_step_def)
  also have "\<dots> = ?U @ kept_segments now name"
    unfolding f1 using f2 by (simp add: kept_segments_def)
  finally have q: "normalizeString ?p False = join_slash (?U @ kept_segments now name)"
    by (simp add: normalizeString_def)
  have "hd (?U @ kept_segments now name) = hd ?U" using Une by simp
  moreover have "hd ?U \<noteq> []" using Upl Une by (cases ?U) (auto simp: plain_def)
  ultimately have qne: "join_slash (?U @ kept_segments now name) \<noteq> []"
    using Une by (intro join_slash_nonempty) simp_all
  have udne: "uploadDir cwd \<noteq> []" using ud by simp
  have j: "path_join [uploadDir cwd, ?u] = path_normalize ?p"
    using une udne by (simp add: path_join_def)
  have h: "hd ?p = CHR ''/''" using ud by simp
  have l: "last ?p = last ?u" using une by simp
  show ?thesis
    unfolding newPath_def j
    using h l q qne by (simp add: path_normalize_def Let_def)
qed

lemma newPath_inj_time:
  assumes "cwd \<noteq> []" "hd cwd = CHR ''/''" "''..'' \<notin> set (split_slash name)"
    and "newPath cwd t1 name = newPath cwd t2 name"
  shows "t1 = t2"
proof -
  let ?U = "upload_segments cwd"
  let ?k1 = "kept_segments t1 name" and ?k2 = "kept_segments t2 name"
  have l: "last (uniqueFilename t1 name) = last (uniqueFilename t2 name)"
    by (simp add: last_uniqueFilename)
  have "set (tl (split_slash name)) \<subseteq> set (split_slash name)"
    using split_slash_nonempty [of name] by (cases "split_slash name") auto
  with assms(3) have nd: "''..'' \<notin> set (tl (split_slash name))" by auto
  have "join_slash (?U @ ?k1) = join_slash (?U @ ?k2)"
    using assms(4) unfolding newPath_no_dotdot [OF assms(1,2) nd] l by simp
  then have e: "split_slash (join_slash (?U @ ?k1)) = split_slash (join_slash (?U @ ?k2))"
    by simp
  have Uns: "\<forall>s \<in> set ?U. CHR ''/'' \<notin> set s"
    using upload_segments_plain [of cwd] by (simp add: plain_def)
  have k: "\<forall>s \<in> set (?U @ kept_segments t name). CHR ''/'' \<notin> set s" for t
  proof
    fix s assume "s \<in> set (?U @ kept_segments t name)"
    then consider "s \<in> set ?U" | "s = string_of_nat t @ ''-'' @ hd (split_slash name)"
      | "s \<in> set (tl (split_slash name))"
      by (auto simp: kept_segments_def)
    then show "CHR ''/'' \<notin> set s"
    proof cases
      case 1
      then show ?thesis using Uns by blast
    next
      case 2
      then show ?thesis using first_segment_plain [of t name] unfolding plain_def by blast
    next
      case 3
      then have "s \<in> set (split_slash name)"
        using split_slash_nonempty [of name] by (metis list.set_sel(2))
      then show ?thesis by (rule split_slash_segments)
    qed
  qed
  have ne: "?U @ kept_segments t name \<noteq> []" for t by (simp add: kept_segments_def)
  have "?U @ ?k1 = split_slash (join_slash (?U @ ?k1))"
    by (rule sym, rule split_join_slash [OF ne k])
  also have "\<dots> = split_slash (join_slash (?U @ ?k2))" by (rule e)
  also have "\<dots> = ?U @ ?k2" by (rule split_join_slash [OF ne k])
  finally have "?k1 = ?k2" by (simp only: same_append_eq)
  then have "string_of_nat t1 @ ''-'' @ hd (split_slash name) =
      string_of_nat t2 @ ''-'' @ hd (split_slash name)"
    unfolding kept_segments_def by (simp only: list.inject)
  then have "string_of_nat t1 = string_of_nat t2" by (simp only: append_same_eq)
  then show ?thesis by (rule string_of_nat_inj)
qed

subsection \<open>What the handler changes\<close>

lemma handler_selected:
  "selected req = Some (f, name) \<Longrightarrow> handler cwd now req fs = persist cwd now fs f name"
  by (auto simp: selected_def handler_def split: if_splits parse_result.splits option.splits)

lemma handler_not_selected:
  "selected req = None \<Longrightarrow> snd (handler cwd now req fs) = (fs, case parsed req of ParseError e \<Rightarrow> if method req = ''POST'' then [LogParse e] else [] | Parsed fm \<Rightarrow> [])"
  by (auto simp: selected_def handler_def split: if_splits parse_result.splits option.splits)

lemma renameSync_Inr:
  "renameSync fs a b = Inr fs' \<Longrightarrow>
     (\<exists>content. files fs a = Some content \<and>
        fs' = fs\<lparr>files := ((files fs)(a := None))(b \<mapsto> content)\<rparr>)"
  by (auto simp: renameSync_def split: option.splits if_splits)

lemma unlinkSync_Inr:
  "unlinkSync fs p = Inr fs' \<Longrightarrow> fs' = fs\<lparr>files := (files fs)(p := None)\<rparr>"
  by (auto simp: unlinkSync_def split: option.splits if_splits)

lemma persist_frame:
  assumes "persist cwd now fs f name = (r, fs', lg)"
  shows "dirs fs' = dirs fs \<and> readonly fs' = readonly fs \<and>
         (\<forall>p. p \<noteq> filepath f \<longrightarrow> p \<noteq> newPath cwd now name \<longrightarrow> files fs' p = files fs p)"
  using assms
  by (auto simp: persist_def split: sum.splits dest!: renameSync_Inr unlinkSync_Inr)

lemma handler_frame:
  assumes "handler cwd now req fs = (r, fs', lg)"
  shows "dirs fs' = dirs fs \<and> readonly fs' = readonly fs \<and>
         (\<forall>p. p \<notin> touched cwd (now, req) \<longrightarrow> files fs' p = files fs p)"
proof (cases "selected req")
  case None
  then have "snd (handler cwd now req fs) = (fs, lg)"
    using handler_not_selected [OF None, of cwd now fs] assms by simp
  with assms have "fs' = fs" by simp
  then show ?thesis by simp
next
  case (Some a)
  obtain f name where a: "a = (f, name)" by (cases a)
  have "persist cwd now fs f name = (r, fs', lg)"
    using handler_selected [of req f name cwd now fs] Some a assms by simp
  from persist_frame [OF this] show ?thesis
    using Some a by (simp add: touched_def)
qed


lemma persist_200:
  assumes "persist cwd now fs f name = (r, fs', lg)" "status r = 200"
  shows "renameSync fs (filepath f) (newPath cwd now name) = Inr fs'"
  using assms by (auto simp: persist_def respond_def split: sum.splits)

lemma uniqueFilename_inj_time:
  "uniqueFilename t1 name = uniqueFilename t2 name \<Longrightarrow> t1 = t2"
  by (simp add: uniqueFilename_def string_of_nat_inj)

lemma serve_two:
  assumes "serve cwd [(t1, req1), (t2, req2)] fs = ([r1, r2], fs')"
  shows "\<exists>fs1 l1 l2. handler cwd t1 req1 fs = (r1, fs1, l1) \<and> handler cwd t2 req2 fs1 = (r2, fs', l2)"
  using assms by (auto split: prod.splits)


subsection \<open>Creating the directory chain\<close>




subsection \<open>Loading the module, and a request without the directory\<close>







subsection \<open>Files the handler leaves alone, and the file it stores\<close>






subsection \<open>Unfolding the definitions on concrete inputs\<close>

lemmas eval_defs = handler_def persist_def renameSync_def unlinkSync_def newPath_def uploadDir_def
  path_join_def path_normalize_def normalizeString_def norm_step_def uniqueFilename_def
  string_of_nat.simps digit_char_def parent_dir_def imageUrl_def respond_def
  sample_disk_def sample_disk_readonly_def upload_request_def

section \<open>Properties\<close>

subsection \<open>Successful uploads\<close>

text \<open>
  C1, as the claim has it, fails: a POST whose \<^verbatim>\<open>avatar\<close> part is one file with the
  non-empty name \<^verbatim>\<open>pics/a.png\<close>, its temporary file on disk, is answered with 500. The
  destination \<^verbatim>\<open>/app/public/uploads/avatars/17-pics/a.png\<close> lies in a directory that
  does not exist, so \<^verbatim>\<open>renameSync\<close> throws and the \<^verbatim>\<open>catch\<close> of line 89 answers.
\<close>

theorem valid_upload_answered_500:
  "method (upload_request ''pics/a.png'' ''/app/public/uploads/avatars/tmp1'') = ''POST'' \<and>
   files sample_disk ''/app/public/uploads/avatars/tmp1'' = Some ''first'' \<and>
   fst (handler ''/app'' 17 (upload_request ''pics/a.png'' ''/app/public/uploads/avatars/tmp1'')
          sample_disk)
     = respond 500 [(''error'', ''Error saving uploaded file.'')]"
  by (simp add: eval_defs)

text \<open>
  C1, amended. For every POST whose \<^verbatim>\<open>avatar\<close> part has a file with a non-empty original
  filename, and whose rename to the destination succeeds, the handler answers 200 with the
  JSON body \<^verbatim>\<open>{ imageUrl }\<close>, where \<^verbatim>\<open>imageUrl\<close> is \<^verbatim>\<open>/uploads/avatars/\<close>, the clock reading
  in decimal, \<^verbatim>\<open>-\<close> and the original filename as it came; the file system is the one the
  rename returned, with the bytes of the temporary file at the destination; nothing is
  logged.
\<close>

theorem upload_success_response:
  assumes "method req = ''POST''"
    and "parsed req = Parsed fileMap"
    and "fileMap ''avatar'' = Some file"
    and "anUploadedFile file = Some f"
    and "originalFilename f = Some name"
    and "name \<noteq> []"
    and "renameSync fs (filepath f) (newPath cwd now name) = Inr fs'"
  shows "handler cwd now req fs =
           (respond 200 [(''imageUrl'', ''/uploads/avatars/'' @ string_of_nat now @ ''-'' @ name)],
            fs', []) \<and>
         files fs' (newPath cwd now name) = files fs (filepath f)"
proof -
  have "handler cwd now req fs = persist cwd now fs f name"
    using assms(1-6) by (simp add: handler_def)
  moreover have "files fs' (newPath cwd now name) = files fs (filepath f)"
    using renameSync_Inr [OF assms(7)] by auto
  ultimately show ?thesis
    using assms(7) by (simp add: persist_def imageUrl_def uniqueFilename_def)
qed

theorem upload_success_response_witness:
  "fst (handler ''/app'' 1700000000000
          (upload_request ''a.png'' ''/app/public/uploads/avatars/tmp1'') sample_disk)
     = respond 200 [(''imageUrl'', ''/uploads/avatars/1700000000000-a.png'')] \<and>
   files (fst (snd (handler ''/app'' 1700000000000
          (upload_request ''a.png'' ''/app/public/uploads/avatars/tmp1'') sample_disk)))
      ''/app/public/uploads/avatars/1700000000000-a.png'' = Some ''first''"
proof -
  let ?f = "\<lparr>originalFilename = Some ''a.png'', filepath = ''/app/public/uploads/avatars/tmp1''\<rparr>"
  let ?req = "upload_request ''a.png'' ''/app/public/uploads/avatars/tmp1''"
  let ?new = "''/app/public/uploads/avatars/1700000000000-a.png''"
  let ?fs' = "sample_disk\<lparr>files := ((files sample_disk)(''/app/public/uploads/avatars/tmp1'' := None))
                (?new \<mapsto> ''first'')\<rparr>"
  have n: "newPath ''/app'' 1700000000000 ''a.png'' = ?new"
    by (simp add: eval_defs)
  have r: "renameSync sample_disk (filepath ?f) (newPath ''/app'' 1700000000000 ''a.png'') = Inr ?fs'"
    unfolding n by (simp add: renameSync_def parent_dir_def sample_disk_def)
  have s: "string_of_nat 1700000000000 = ''1700000000000''"
    by (simp add: string_of_nat.simps digit_char_def)
  from upload_success_response [of ?req "[''avatar'' \<mapsto> OneFile ?f]" "OneFile ?f" ?f "''a.png''"
      sample_disk "''/app''" 1700000000000 ?fs', OF _ _ _ _ _ _ r]
  show ?thesis unfolding n s by (simp add: upload_request_def sample_disk_def)
qed

text \<open>
  C10. For every POST whose \<^verbatim>\<open>avatar\<close> entry is an array of two or more files, the handler
  does exactly what it does for the first file alone: the same answer, the same file
  system, the same console lines. When the first file has a non-empty original filename
  and its rename succeeds, the answer is 200 with the \<^verbatim>\<open>imageUrl\<close> of the first file, the
  first file's bytes are at its destination and its temporary file is gone. In every case
  each path other than the first file's temporary file and the first file's destination
  keeps its content, so the temporary files of the other parts stay where formidable
  wrote them, and nothing is created under a name generated from their filenames.
\<close>

theorem array_first_file_only:
  assumes "method req = ''POST''"
    and "parsed req = Parsed fileMap"
    and "fileMap ''avatar'' = Some (FileArray (f # g # rest))"
  shows "handler cwd now req fs =
           handler cwd now (req\<lparr>parsed := Parsed (fileMap(''avatar'' \<mapsto> OneFile f))\<rparr>) fs \<and>
         (\<forall>name fs'.
            originalFilename f = Some name \<longrightarrow> name \<noteq> [] \<longrightarrow>
            renameSync fs (filepath f) (newPath cwd now name) = Inr fs' \<longrightarrow>
            handler cwd now req fs =
              (respond 200
                 [(''imageUrl'', ''/uploads/avatars/'' @ string_of_nat now @ ''-'' @ name)],
               fs', []) \<and>
            files fs (filepath f) \<noteq> None \<and>
            files fs' (newPath cwd now name) = files fs (filepath f) \<and>
            (filepath f \<noteq> newPath cwd now name \<longrightarrow> files fs' (filepath f) = None)) \<and>
         (\<forall>p. p \<noteq> filepath f \<longrightarrow>
              (\<forall>name. originalFilename f = Some name \<longrightarrow> p \<noteq> newPath cwd now name) \<longrightarrow>
              files (fst (snd (handler cwd now req fs))) p = files fs p)"
proof -
  have e: "handler cwd now req fs =
           handler cwd now (req\<lparr>parsed := Parsed (fileMap(''avatar'' \<mapsto> OneFile f))\<rparr>) fs"
    using assms by (simp add: handler_def)
  have s: "handler cwd now req fs =
              (respond 200
                 [(''imageUrl'', ''/uploads/avatars/'' @ string_of_nat now @ ''-'' @ name)],
               fs', []) \<and>
            files fs (filepath f) \<noteq> None \<and>
            files fs' (newPath cwd now name) = files fs (filepath f) \<and>
            (filepath f \<noteq> newPath cwd now name \<longrightarrow> files fs' (filepath f) = None)"
    if n: "originalFilename f = Some name" "name \<noteq> []"
      and r: "renameSync fs (filepath f) (newPath cwd now name) = Inr fs'" for name fs'
  proof -
    have "handler cwd now req fs = persist cwd now fs f name"
      using assms n by (simp add: handler_def)
    then have "handler cwd now req fs =
              (respond 200
                 [(''imageUrl'', ''/uploads/avatars/'' @ string_of_nat now @ ''-'' @ name)],
               fs', [])"
      using r by (simp add: persist_def imageUrl_def uniqueFilename_def)
    moreover from renameSync_Inr [OF r]
    have "files fs (filepath f) \<noteq> None \<and>
          files fs' (newPath cwd now name) = files fs (filepath f) \<and>
          (filepath f \<noteq> newPath cwd now name \<longrightarrow> files fs' (filepath f) = None)"
      by auto
    ultimately show ?thesis by simp
  qed
  have fr: "files (fst (snd (handler cwd now req fs))) p = files fs p"
    if "p \<noteq> filepath f" "\<forall>name. originalFilename f = Some name \<longrightarrow> p \<noteq> newPath cwd now name" for p
  proof -
    obtain r fs' lg where h: "handler cwd now req fs = (r, fs', lg)"
      by (cases "handler cwd now req fs") auto
    have "p \<notin> touched cwd (now, req)"
      using that assms
      by (auto simp: touched_def selected_def split: option.splits if_splits)
    with handler_frame [OF h] show ?thesis using h by simp
  qed
  from e s fr show ?thesis by blast
qed

theorem array_first_file_only_witness:
  "handler ''/app'' 17
     \<lparr>method = ''POST'',
      parsed = Parsed [''avatar'' \<mapsto> FileArray
        [\<lparr>originalFilename = Some ''a.png'', filepath = ''/app/public/uploads/avatars/tmp1''\<rparr>,
         \<lparr>originalFilename = Some ''b.png'', filepath = ''/app/public/uploads/avatars/tmp2''\<rparr>]]\<rparr>
     sample_disk =
     (respond 200 [(''imageUrl'', ''/uploads/avatars/17-a.png'')],
      sample_disk\<lparr>files := ((files sample_disk)(''/app/public/uploads/avatars/tmp1'' := None))
        (''/app/public/uploads/avatars/17-a.png'' \<mapsto> ''first'')\<rparr>, []) \<and>
   files (sample_disk\<lparr>files := ((files sample_disk)(''/app/public/uploads/avatars/tmp1'' := None))
        (''/app/public/uploads/avatars/17-a.png'' \<mapsto> ''first'')\<rparr>)
     ''/app/public/uploads/avatars/17-a.png'' = Some ''first'' \<and>
   files (sample_disk\<lparr>files := ((files sample_disk)(''/app/public/uploads/avatars/tmp1'' := None))
        (''/app/public/uploads/avatars/17-a.png'' \<mapsto> ''first'')\<rparr>)
     ''/app/public/uploads/avatars/tmp1'' = None \<and>
   files (sample_disk\<lparr>files := ((files sample_disk)(''/app/public/uploads/avatars/tmp1'' := None))
        (''/app/public/uploads/avatars/17-a.png'' \<mapsto> ''first'')\<rparr>)
     ''/app/public/uploads/avatars/tmp2'' = Some ''second'' \<and>
   files (sample_disk\<lparr>files := ((files sample_disk)(''/app/public/uploads/avatars/tmp1'' := None))
        (''/app/public/uploads/avatars/17-a.png'' \<mapsto> ''first'')\<rparr>)
     (newPath ''/app'' 17 ''b.png'') = None"
proof -
  let ?t1 = "''/app/public/uploads/avatars/tmp1''" and ?t2 = "''/app/public/uploads/avatars/tmp2''"
  let ?f = "\<lparr>originalFilename = Some ''a.png'', filepath = ?t1\<rparr>"
  let ?g = "\<lparr>originalFilename = Some ''b.png'', filepath = ?t2\<rparr>"
  let ?fm = "[''avatar'' \<mapsto> FileArray [?f, ?g]]"
  let ?req = "\<lparr>method = ''POST'', parsed = Parsed ?fm\<rparr>"
  let ?fs' = "sample_disk\<lparr>files := ((files sample_disk)(?t1 := None))
        (''/app/public/uploads/avatars/17-a.png'' \<mapsto> ''first'')\<rparr>"
  have na: "newPath ''/app'' 17 ''a.png'' = ''/app/public/uploads/avatars/17-a.png''"
    by (simp add: eval_defs)
  have nb: "newPath ''/app'' 17 ''b.png'' = ''/app/public/uploads/avatars/17-b.png''"
    by (simp add: eval_defs)
  have s17: "string_of_nat 17 = ''17''"
    by (simp add: string_of_nat.simps digit_char_def)
  have m: "method ?req = ''POST''" by simp
  have pr: "parsed ?req = Parsed ?fm" by simp
  have av: "?fm ''avatar'' = Some (FileArray (?f # ?g # []))" by simp
  have on: "originalFilename ?f = Some ''a.png''" and nn: "''a.png'' \<noteq> []" by simp_all
  have r: "renameSync sample_disk (filepath ?f) (newPath ''/app'' 17 ''a.png'') = Inr ?fs'"
    unfolding na by (simp add: renameSync_def parent_dir_def sample_disk_def)
  note ab = array_first_file_only [OF m pr av, of "''/app''" 17 sample_disk]
  note st = ab [THEN conjunct2, THEN conjunct1, rule_format, OF on nn r]
  have h: "handler ''/app'' 17 ?req sample_disk =
      (respond 200 [(''imageUrl'', ''/uploads/avatars/17-a.png'')], ?fs', [])"
    using st [THEN conjunct1] unfolding s17 by simp
  have a: "files ?fs' ''/app/public/uploads/avatars/17-a.png'' = Some ''first''"
    using st [THEN conjunct2, THEN conjunct2, THEN conjunct1] unfolding na
    by (simp add: sample_disk_def)
  have b: "files ?fs' ?t1 = None"
    using st [THEN conjunct2, THEN conjunct2, THEN conjunct2] unfolding na by simp
  have "files (fst (snd (handler ''/app'' 17 ?req sample_disk))) ?t2 = files sample_disk ?t2"
    using ab [THEN conjunct2, THEN conjunct2, rule_format, of ?t2] by (simp add: na)
  then have c: "files ?fs' ?t2 = Some ''second''"
    unfolding h by (simp add: sample_disk_def)
  have "files (fst (snd (handler ''/app'' 17 ?req sample_disk)))
      ''/app/public/uploads/avatars/17-b.png'' = files sample_disk ''/app/public/uploads/avatars/17-b.png''"
    using ab [THEN conjunct2, THEN conjunct2, rule_format, of "''/app/public/uploads/avatars/17-b.png''"]
    by (simp add: na)
  then have d: "files ?fs' ''/app/public/uploads/avatars/17-b.png'' = None"
    unfolding h by (simp add: sample_disk_def)
  from h a b c d show ?thesis unfolding nb by (intro conjI)
qed

subsection \<open>Distinct names, and where they do not help\<close>

text \<open>
  C4, as the claim has it, fails: two uploads of the filename \<^verbatim>\<open>x/../a.png\<close> at the clock
  readings 17 and 18 are both answered with 200, yet \<^verbatim>\<open>path.join\<close> normalises both
  destinations to \<^verbatim>\<open>/app/public/uploads/avatars/a.png\<close>. The second upload replaces the
  first: one file is left, holding the second upload's bytes.
\<close>

theorem same_name_same_destination:
  "(17::nat) \<noteq> 18 \<and>
   map status (fst (serve ''/app''
      [(17, upload_request ''x/../a.png'' ''/app/public/uploads/avatars/tmp1''),
       (18, upload_request ''x/../a.png'' ''/app/public/uploads/avatars/tmp2'')] sample_disk))
     = [200, 200] \<and>
   newPath ''/app'' 17 ''x/../a.png'' = ''/app/public/uploads/avatars/a.png'' \<and>
   newPath ''/app'' 18 ''x/../a.png'' = ''/app/public/uploads/avatars/a.png'' \<and>
   files (snd (serve ''/app''
      [(17, upload_request ''x/../a.png'' ''/app/public/uploads/avatars/tmp1'')] sample_disk))
     ''/app/public/uploads/avatars/a.png'' = Some ''first'' \<and>
   files (snd (serve ''/app''
      [(17, upload_request ''x/../a.png'' ''/app/public/uploads/avatars/tmp1''),
       (18, upload_request ''x/../a.png'' ''/app/public/uploads/avatars/tmp2'')] sample_disk))
     ''/app/public/uploads/avatars/a.png'' = Some ''second'' \<and>
   dom (files (snd (serve ''/app''
      [(17, upload_request ''x/../a.png'' ''/app/public/uploads/avatars/tmp1''),
       (18, upload_request ''x/../a.png'' ''/app/public/uploads/avatars/tmp2'')] sample_disk)))
     = {''/app/public/uploads/avatars/a.png''}"
proof -
  have n1: "newPath ''/app'' 17 ''x/../a.png'' = ''/app/public/uploads/avatars/a.png''"
    by (simp add: eval_defs)
  have n2: "newPath ''/app'' 18 ''x/../a.png'' = ''/app/public/uploads/avatars/a.png''"
    by (simp add: eval_defs)
  show ?thesis
    unfolding n1 n2
    by (simp add: handler_def persist_def n1 n2 upload_request_def renameSync_def parent_dir_def
        sample_disk_def respond_def)
qed

text \<open>
  C4, amended. Take two uploads of the same original filename, one with no \<^verbatim>\<open>..\<close>
  segment between its \<^verbatim>\<open>/\<close> separators, served
  one after the other at distinct clock readings by a server whose working directory is
  absolute, both answered with 200, the second upload's temporary file not being the first
  upload's destination. Then the two generated filenames differ, the two destinations
  differ, and after both requests each destination holds the bytes of its own temporary
  file: the second upload created a new file and left the first one as it was.
\<close>

theorem same_name_distinct_times:
  assumes "cwd \<noteq> []" and "hd cwd = CHR ''/''"
    and "t1 \<noteq> t2"
    and "''..'' \<notin> set (split_slash name)"
    and "selected req1 = Some (f1, name)"
    and "selected req2 = Some (f2, name)"
    and "filepath f2 \<noteq> newPath cwd t1 name"
    and "serve cwd [(t1, req1), (t2, req2)] fs = ([r1, r2], fs')"
    and "status r1 = 200" and "status r2 = 200"
  shows "uniqueFilename t1 name \<noteq> uniqueFilename t2 name \<and>
         newPath cwd t1 name \<noteq> newPath cwd t2 name \<and>
         files fs (filepath f1) \<noteq> None \<and>
         files fs (filepath f2) \<noteq> None \<and>
         files fs' (newPath cwd t1 name) = files fs (filepath f1) \<and>
         files fs' (newPath cwd t2 name) = files fs (filepath f2)"
proof -
  let ?n1 = "newPath cwd t1 name" and ?n2 = "newPath cwd t2 name"
  have u: "uniqueFilename t1 name \<noteq> uniqueFilename t2 name"
    using assms(3) uniqueFilename_inj_time by blast
  have n: "?n1 \<noteq> ?n2"
    using assms(3) newPath_inj_time [OF assms(1,2,4)] by blast
  obtain fs1 l1 l2 where h1: "handler cwd t1 req1 fs = (r1, fs1, l1)"
    and h2: "handler cwd t2 req2 fs1 = (r2, fs', l2)"
    using serve_two [OF assms(8)] by blast
  have p1: "persist cwd t1 fs f1 name = (r1, fs1, l1)"
    using handler_selected [OF assms(5)] h1 by simp
  have p2: "persist cwd t2 fs1 f2 name = (r2, fs', l2)"
    using handler_selected [OF assms(6)] h2 by simp
  obtain c1 where c1: "files fs (filepath f1) = Some c1"
    and fs1: "fs1 = fs\<lparr>files := ((files fs)(filepath f1 := None))(?n1 \<mapsto> c1)\<rparr>"
    using renameSync_Inr [OF persist_200 [OF p1 assms(9)]] by blast
  obtain c2 where c2: "files fs1 (filepath f2) = Some c2"
    and fs': "fs' = fs1\<lparr>files := ((files fs1)(filepath f2 := None))(?n2 \<mapsto> c2)\<rparr>"
    using renameSync_Inr [OF persist_200 [OF p2 assms(10)]] by blast
  have d: "filepath f2 \<noteq> filepath f1 \<or> filepath f1 = ?n1"
    using c2 fs1 by (auto split: if_splits)
  with assms(7) have d': "filepath f2 \<noteq> filepath f1" by auto
  have c2': "files fs (filepath f2) = Some c2"
    using c2 fs1 assms(7) d' by simp
  have a: "files fs' ?n1 = Some c1"
    using fs' fs1 n assms(7) by simp
  have b: "files fs' ?n2 = Some c2"
    using fs' by simp
  from u n c1 c2' a b show ?thesis by simp
qed

theorem same_name_distinct_times_witness:
  "uniqueFilename 17 ''a.png'' \<noteq> uniqueFilename 18 ''a.png'' \<and>
   newPath ''/app'' 17 ''a.png'' \<noteq> newPath ''/app'' 18 ''a.png'' \<and>
   files (snd (serve ''/app''
      [(17, upload_request ''a.png'' ''/app/public/uploads/avatars/tmp1''),
       (18, upload_request ''a.png'' ''/app/public/uploads/avatars/tmp2'')] sample_disk))
     (newPath ''/app'' 17 ''a.png'') = Some ''first'' \<and>
   files (snd (serve ''/app''
      [(17, upload_request ''a.png'' ''/app/public/uploads/avatars/tmp1''),
       (18, upload_request ''a.png'' ''/app/public/uploads/avatars/tmp2'')] sample_disk))
     (newPath ''/app'' 18 ''a.png'') = Some ''second''"
proof -
  let ?t1 = "''/app/public/uploads/avatars/tmp1''" and ?t2 = "''/app/public/uploads/avatars/tmp2''"
  let ?f1 = "\<lparr>originalFilename = Some ''a.png'', filepath = ?t1\<rparr>"
  let ?f2 = "\<lparr>originalFilename = Some ''a.png'', filepath = ?t2\<rparr>"
  let ?reqs = "[(17, upload_request ''a.png'' ?t1), (18, upload_request ''a.png'' ?t2)]"
  let ?out = "serve ''/app'' ?reqs sample_disk"
  have n1: "newPath ''/app'' 17 ''a.png'' = ''/app/public/uploads/avatars/17-a.png''"
    by (simp add: eval_defs)
  have n2: "newPath ''/app'' 18 ''a.png'' = ''/app/public/uploads/avatars/18-a.png''"
    by (simp add: eval_defs)
  have s1: "selected (upload_request ''a.png'' ?t1) = Some (?f1, ''a.png'')"
    by (simp add: selected_def upload_request_def)
  have s2: "selected (upload_request ''a.png'' ?t2) = Some (?f2, ''a.png'')"
    by (simp add: selected_def upload_request_def)
  have st: "map status (fst ?out) = [200, 200]"
    by (simp add: handler_def persist_def n1 n2 upload_request_def renameSync_def parent_dir_def
        sample_disk_def respond_def)
  then obtain r1 r2 where rs: "fst ?out = [r1, r2]" and r1: "status r1 = 200" and r2: "status r2 = 200"
    by (cases "fst ?out") auto
  have sv: "serve ''/app'' ?reqs sample_disk = ([r1, r2], snd ?out)"
    using rs by (simp add: prod_eq_iff)
  have ne: "filepath ?f2 \<noteq> newPath ''/app'' 17 ''a.png''"
    unfolding n1 by simp
  from same_name_distinct_times [of "''/app''" 17 18 "''a.png''" "upload_request ''a.png'' ?t1" ?f1
      "upload_request ''a.png'' ?t2" ?f2 sample_disk r1 r2 "snd ?out", OF _ _ _ _ s1 s2 ne sv r1 r2]
  show ?thesis by (simp add: sample_disk_def)
qed




text \<open>
  C9. The destination is \<^verbatim>\<open>path.join(uploadDir, Date.now() + '-' + originalFilename)\<close> with
  the filename as the client sent it. For the filename \<^verbatim>\<open>x/../../evil.png\<close>, which contains
  \<^verbatim>\<open>../\<close>, the upload is answered with 200 and the file is stored at
  \<^verbatim>\<open>/app/public/uploads/evil.png\<close>, outside the upload directory
  \<^verbatim>\<open>/app/public/uploads/avatars\<close>. (A leading \<^verbatim>\<open>../\<close> alone does not escape: the clock
  reading and the dash make the first segment \<^verbatim>\<open>17-..\<close>, which is an ordinary name.)
\<close>

theorem traversal_leaves_upload_root:
  "uploadDir ''/app'' = ''/app/public/uploads/avatars'' \<and>
   newPath ''/app'' 17 ''x/../../evil.png'' = ''/app/public/uploads/evil.png'' \<and>
   \<not> inside_dir (uploadDir ''/app'') (newPath ''/app'' 17 ''x/../../evil.png'') \<and>
   fst (handler ''/app'' 17
          (upload_request ''x/../../evil.png'' ''/app/public/uploads/avatars/tmp1'') sample_disk)
     = respond 200 [(''imageUrl'', ''/uploads/avatars/17-x/../../evil.png'')] \<and>
   files (fst (snd (handler ''/app'' 17
          (upload_request ''x/../../evil.png'' ''/app/public/uploads/avatars/tmp1'') sample_disk)))
     ''/app/public/uploads/evil.png'' = Some ''first''"
proof -
  have u: "uploadDir ''/app'' = ''/app/public/uploads/avatars''"
    by (simp add: eval_defs)
  have n: "newPath ''/app'' 17 ''x/../../evil.png'' = ''/app/public/uploads/evil.png''"
    by (simp add: eval_defs)
  have i: "\<not> inside_dir ''/app/public/uploads/avatars'' ''/app/public/uploads/evil.png''"
    by (simp add: inside_dir_def)
  have h: "handler ''/app'' 17
          (upload_request ''x/../../evil.png'' ''/app/public/uploads/avatars/tmp1'') sample_disk
     = (respond 200 [(''imageUrl'', ''/uploads/avatars/17-x/../../evil.png'')],
        sample_disk\<lparr>files := ((files sample_disk)(''/app/public/uploads/avatars/tmp1'' := None))
          (''/app/public/uploads/evil.png'' \<mapsto> ''first'')\<rparr>, [])"
    by (simp add: handler_def persist_def n upload_request_def renameSync_def parent_dir_def
        sample_disk_def imageUrl_def uniqueFilename_def string_of_nat.simps digit_char_def)
  show ?thesis
    unfolding u n h using i by simp
qed

subsection \<open>Requests refused\<close>

text \<open>
  The 400 branches make no file-system call. For every POST that formidable parsed, if
  \<^verbatim>\<open>files.avatar\<close> is absent, or is an empty array, or the chosen file has no original
  filename (\<^verbatim>\<open>null\<close> or the empty string), the handler answers 400 with its error
  message, logs nothing, and returns the file system the callback was given.
\<close>

lemma missing_file_bad_request:
  assumes "method req = ''POST''"
    and "parsed req = Parsed fileMap"
    and "fileMap ''avatar'' = None \<or>
         (\<exists>file. fileMap ''avatar'' = Some file \<and>
            (anUploadedFile file = None \<or>
             (\<exists>f. anUploadedFile file = Some f \<and>
                (originalFilename f = None \<or> originalFilename f = Some []))))"
  shows "handler cwd now req fs =
           (respond 400
              [(''error'',
                if fileMap ''avatar'' = None then ''No file uploaded.''
                else ''No file uploaded or filename is missing.'')],
            fs, [])"
  using assms by (auto simp: handler_def)

text \<open>
  C2. The claim asks that on these requests no new file appears under the upload
  directory. The code does not achieve that when the \<^verbatim>\<open>avatar\<close> part is a file without
  an original filename. Before the request the upload directory holds no file; line 56
  makes formidable write the part to \<^verbatim>\<open>/app/public/uploads/avatars/tmp1\<close>; the callback
  takes the branch of line 76, answers 400 and returns without removing that file, so it
  is still there afterwards. The \<^verbatim>\<open>catch\<close> of line 89 does remove the temporary file; the
  400 branch has no such cleanup.
\<close>

theorem nameless_part_leaves_temp_file:
  "files loaded_disk ''/app/public/uploads/avatars/tmp1'' = None \<and>
   inside_dir (uploadDir ''/app'') ''/app/public/uploads/avatars/tmp1'' \<and>
   handler ''/app'' 17
     \<lparr>method = ''POST'',
      parsed = Parsed [''avatar'' \<mapsto> OneFile
        \<lparr>originalFilename = None, filepath = ''/app/public/uploads/avatars/tmp1''\<rparr>]\<rparr>
     (write_temp loaded_disk ''/app/public/uploads/avatars/tmp1'' ''first'') =
     (respond 400 [(''error'', ''No file uploaded or filename is missing.'')],
      write_temp loaded_disk ''/app/public/uploads/avatars/tmp1'' ''first'', []) \<and>
   files (write_temp loaded_disk ''/app/public/uploads/avatars/tmp1'' ''first'')
     ''/app/public/uploads/avatars/tmp1'' = Some ''first''"
proof -
  have u: "uploadDir ''/app'' = ''/app/public/uploads/avatars''"
    by (simp add: eval_defs)
  show ?thesis
    unfolding u
    by (simp add: handler_def inside_dir_def write_temp_def loaded_disk_def)
qed

text \<open>
  C5. A request whose method is not POST is answered with status 405, the JSON body
  \<^verbatim>\<open>{ error: 'Method not allowed' }\<close> and the header \<^verbatim>\<open>Allow: POST\<close>, POST being the
  only method listed; the file system is left as it was.
\<close>

theorem non_post_method_not_allowed:
  assumes "method req \<noteq> ''POST''"
  shows "handler cwd now req fs =
           (\<lparr>status = 405, headers = [(''Allow'', [''POST''])],
             json = [(''error'', ''Method not allowed'')]\<rparr>, fs, [])"
  using assms by (simp add: handler_def)

theorem non_post_method_not_allowed_witness:
  "method \<lparr>method = ''GET'', parsed = Parsed Map.empty\<rparr> \<noteq> ''POST'' \<and>
   handler ''/app'' 1700000000000 \<lparr>method = ''GET'', parsed = Parsed Map.empty\<rparr>
       \<lparr>files = Map.empty, dirs = {}, readonly = {}\<rparr> =
     (\<lparr>status = 405, headers = [(''Allow'', [''POST''])],
       json = [(''error'', ''Method not allowed'')]\<rparr>,
      \<lparr>files = Map.empty, dirs = {}, readonly = {}\<rparr>, [])"
  using non_post_method_not_allowed
    [of "\<lparr>method = ''GET'', parsed = Parsed Map.empty\<rparr>" "''/app''" 1700000000000
        "\<lparr>files = Map.empty, dirs = {}, readonly = {}\<rparr>"]
  by simp

text \<open>
  C6. For every POST whose body formidable could not parse (the callback gets \<^verbatim>\<open>err\<close>),
  the handler answers 500 with the JSON body \<^verbatim>\<open>{ error: 'Error parsing form data.' }\<close>,
  logs the error, leaves the file system as it was, and names no image in its answer:
  the body has no \<^verbatim>\<open>imageUrl\<close>.
\<close>

theorem parse_failure_reported:
  assumes "method req = ''POST''"
    and "parsed req = ParseError err"
  shows "handler cwd now req fs =
           (respond 500 [(''error'', ''Error parsing form data.'')], fs, [LogParse err]) \<and>
         map_of (json (fst (handler cwd now req fs))) ''imageUrl'' = None"
  using assms by (simp add: handler_def respond_def)

theorem parse_failure_reported_witness:
  "handler ''/app'' 17 \<lparr>method = ''POST'', parsed = ParseError ''bad boundary''\<rparr> sample_disk =
     (respond 500 [(''error'', ''Error parsing form data.'')], sample_disk,
      [LogParse ''bad boundary'']) \<and>
   map_of (json (fst (handler ''/app'' 17
      \<lparr>method = ''POST'', parsed = ParseError ''bad boundary''\<rparr> sample_disk))) ''imageUrl'' = None"
  using parse_failure_reported
    [of "\<lparr>method = ''POST'', parsed = ParseError ''bad boundary''\<rparr>" "''bad boundary''"
        "''/app''" 17 sample_disk]
  by (simp add: respond_def)

subsection \<open>A failed move\<close>

text \<open>
  C3. For every upload that reaches the rename and whose rename throws, the handler
  answers 500 with \<^verbatim>\<open>{ error: 'Error saving uploaded file.' }\<close> and tries to delete the
  temporary file. When \<^verbatim>\<open>unlinkSync\<close> returns, the temporary file is gone and only the
  rename error is logged; when \<^verbatim>\<open>unlinkSync\<close> throws too, that error is logged after the
  first, the file system is unchanged and the answer is the same 500. The temporary file
  can only remain when its directory is read-only.
\<close>

theorem persist_failure_cleanup:
  assumes "method req = ''POST''"
    and "parsed req = Parsed fileMap"
    and "fileMap ''avatar'' = Some file"
    and "anUploadedFile file = Some f"
    and "originalFilename f = Some name"
    and "name \<noteq> []"
    and "renameSync fs (filepath f) (newPath cwd now name) = Inl renameError"
  shows "\<exists>fs_after lg.
           handler cwd now req fs =
             (respond 500 [(''error'', ''Error saving uploaded file.'')], fs_after, lg) \<and>
           (case unlinkSync fs (filepath f) of
              Inr fs' \<Rightarrow>
                fs_after = fs' \<and> files fs_after (filepath f) = None \<and>
                lg = [LogRename renameError]
            | Inl unlinkError \<Rightarrow>
                fs_after = fs \<and> lg = [LogRename renameError, LogUnlink unlinkError]) \<and>
           (parent_dir (filepath f) \<notin> readonly fs \<longrightarrow> files fs_after (filepath f) = None)"
proof -
  have h: "handler cwd now req fs = persist cwd now fs f name"
    using assms(1-6) by (simp add: handler_def)
  show ?thesis
  proof (cases "unlinkSync fs (filepath f)")
    case (Inl unlinkError)
    have "parent_dir (filepath f) \<notin> readonly fs \<longrightarrow> files fs (filepath f) = None"
      using Inl by (auto simp: unlinkSync_def split: option.splits if_splits)
    then show ?thesis
      unfolding h using assms(7) Inl by (simp add: persist_def)
  next
    case (Inr fs')
    have "files fs' (filepath f) = None"
      using unlinkSync_Inr [OF Inr] by simp
    then show ?thesis
      unfolding h using assms(7) Inr by (simp add: persist_def)
  qed
qed

theorem persist_failure_cleanup_witness:
  "renameSync sample_disk ''/app/public/uploads/avatars/tmp1''
       (newPath ''/app'' 17 ''pics/a.png'') = Inl ENOENT \<and>
   fst (handler ''/app'' 17 (upload_request ''pics/a.png'' ''/app/public/uploads/avatars/tmp1'')
          sample_disk) = respond 500 [(''error'', ''Error saving uploaded file.'')] \<and>
   files (fst (snd (handler ''/app'' 17
          (upload_request ''pics/a.png'' ''/app/public/uploads/avatars/tmp1'') sample_disk)))
      ''/app/public/uploads/avatars/tmp1'' = None \<and>
   renameSync sample_disk_readonly ''/app/public/uploads/avatars/tmp1''
       (newPath ''/app'' 17 ''a.png'') = Inl EACCES \<and>
   handler ''/app'' 17 (upload_request ''a.png'' ''/app/public/uploads/avatars/tmp1'')
       sample_disk_readonly =
     (respond 500 [(''error'', ''Error saving uploaded file.'')], sample_disk_readonly,
      [LogRename EACCES, LogUnlink EACCES])"
proof -
  let ?tmp = "''/app/public/uploads/avatars/tmp1''"
  let ?f = "\<lparr>originalFilename = Some ''pics/a.png'', filepath = ?tmp\<rparr>"
  let ?g = "\<lparr>originalFilename = Some ''a.png'', filepath = ?tmp\<rparr>"
  have n1: "newPath ''/app'' 17 ''pics/a.png'' = ''/app/public/uploads/avatars/17-pics/a.png''"
    by (simp add: eval_defs)
  have n2: "newPath ''/app'' 17 ''a.png'' = ''/app/public/uploads/avatars/17-a.png''"
    by (simp add: eval_defs)
  have r1: "renameSync sample_disk (filepath ?f) (newPath ''/app'' 17 ''pics/a.png'') = Inl ENOENT"
    unfolding n1 by (simp add: renameSync_def parent_dir_def sample_disk_def)
  have r2: "renameSync sample_disk_readonly (filepath ?g) (newPath ''/app'' 17 ''a.png'') = Inl EACCES"
    unfolding n2 by (simp add: renameSync_def parent_dir_def sample_disk_def sample_disk_readonly_def)
  have u1: "parent_dir ?tmp \<notin> readonly sample_disk"
    by (simp add: sample_disk_def)
  have u2: "unlinkSync sample_disk_readonly ?tmp = Inl EACCES"
    by (simp add: unlinkSync_def parent_dir_def sample_disk_def sample_disk_readonly_def)
  from persist_failure_cleanup
    [of "upload_request ''pics/a.png'' ?tmp" "[''avatar'' \<mapsto> OneFile ?f]" "OneFile ?f" ?f
        "''pics/a.png''" sample_disk "''/app''" 17 ENOENT, OF _ _ _ _ _ _ r1]
  have a: "fst (handler ''/app'' 17 (upload_request ''pics/a.png'' ?tmp) sample_disk) =
             respond 500 [(''error'', ''Error saving uploaded file.'')] \<and>
           files (fst (snd (handler ''/app'' 17 (upload_request ''pics/a.png'' ?tmp) sample_disk)))
             ?tmp = None"
    using u1 by (auto simp: upload_request_def)
  from persist_failure_cleanup
    [of "upload_request ''a.png'' ?tmp" "[''avatar'' \<mapsto> OneFile ?g]" "OneFile ?g" ?g
        "''a.png''" sample_disk_readonly "''/app''" 17 EACCES, OF _ _ _ _ _ _ r2]
  have b: "handler ''/app'' 17 (upload_request ''a.png'' ?tmp) sample_disk_readonly =
     (respond 500 [(''error'', ''Error saving uploaded file.'')], sample_disk_readonly,
      [LogRename EACCES, LogUnlink EACCES])"
    using u2 by (auto simp: upload_request_def)
  from a b r1 r2 show ?thesis by simp
qed

subsection \<open>The upload directory\<close>




end
